theory Spec2Isabelle
  imports Complex_Main "HOL-Library.Multiset"
begin

section \<open>Data model\<close>

text \<open>
  The program is \<^verbatim>\<open>supp_analyses/bootstrap_sequencing_errors.py\<close>. Its arrays are numpy
  arrays of 64-bit integers and doubles. The embedding works in exact arithmetic: a finite
  array entry is a \<^typ>\<open>real\<close>, so rounding and overflow of doubles are outside the model.
  The one non-finite value that the program can produce from finite input, the quotient
  \<^verbatim>\<open>0/0.0\<close> of an empty lineage, is kept as the value \<open>NaN\<close>.
\<close>

datatype fval = Fin real | NaN

text \<open>Arithmetic of doubles in the exact model: \<open>NaN\<close> is absorbing.\<close>

fun fadd :: "fval \<Rightarrow> fval \<Rightarrow> fval" where
  "fadd (Fin a) (Fin b) = Fin (a + b)"
| "fadd _ _ = NaN"

fun fsub :: "fval \<Rightarrow> fval \<Rightarrow> fval" where
  "fsub (Fin a) (Fin b) = Fin (a - b)"
| "fsub _ _ = NaN"

fun fmul :: "fval \<Rightarrow> fval \<Rightarrow> fval" where
  "fmul (Fin a) (Fin b) = Fin (a * b)"
| "fmul _ _ = NaN"

fun val :: "fval \<Rightarrow> real" where
  "val (Fin a) = a"
| "val NaN = 0"

text \<open>
  A two-dimensional array keeps its column count also when it has no rows
  (\<^verbatim>\<open>np.empty((0, 3))\<close> has shape \<open>(0, 3)\<close>), so the count is a field of its own.
\<close>

record matrix =
  ncols :: nat
  rows :: "real list list"

definition well_formed :: "matrix \<Rightarrow> bool" where
  "well_formed m = list_all (\<lambda>r. length r = ncols m) (rows m)"

datatype error = IndexError | ValueError

section \<open>Array primitives used by the program\<close>

text \<open>
  An integer used as an index on an axis of size \<open>n\<close>: numpy accepts \<open>-n \<le> i < n\<close>, counts
  a negative index from the end, and raises \<^verbatim>\<open>IndexError\<close> otherwise.
\<close>

definition valid_index :: "nat \<Rightarrow> int \<Rightarrow> bool" where
  "valid_index n i = (- int n \<le> i \<and> i < int n)"

definition col :: "nat \<Rightarrow> int \<Rightarrow> nat" where
  "col n i = (if i < 0 then nat (i + int n) else nat i)"

fun resolve_indices :: "nat \<Rightarrow> int list \<Rightarrow> error + nat list" where
  "resolve_indices n [] = Inr []"
| "resolve_indices n (i # is) =
     (if valid_index n i
      then (case resolve_indices n is of
              Inl e \<Rightarrow> Inl e
            | Inr js \<Rightarrow> Inr (col n i # js))
      else Inl IndexError)"

text \<open>\<^verbatim>\<open>genotype_matrix[:, taxon]\<close>: the columns named by a list of integers, in the list's order.\<close>

definition take_columns :: "matrix \<Rightarrow> int list \<Rightarrow> error + matrix" where
  "take_columns m taxon =
     (case resolve_indices (ncols m) taxon of
        Inl e \<Rightarrow> Inl e
      | Inr js \<Rightarrow> Inr \<lparr>ncols = length js, rows = map (\<lambda>r. map (\<lambda>j. r ! j) js) (rows m)\<rparr>)"

text \<open>\<^verbatim>\<open>.sum(axis=1)\<close>: one sum per row.\<close>

definition sum_axis1 :: "matrix \<Rightarrow> real list" where
  "sum_axis1 m = map sum_list (rows m)"

text \<open>
  \<^verbatim>\<open>array / float(len(taxon))\<close>. numpy does not raise on a zero divisor. The divisor is zero
  exactly when the lineage is empty; every row sum is then an empty sum, and \<^verbatim>\<open>0/0.0\<close>
  is \<^verbatim>\<open>nan\<close>.
\<close>

definition div_len :: "real \<Rightarrow> nat \<Rightarrow> fval" where
  "div_len s k = (if k = 0 then NaN else Fin (s / real k))"

text \<open>\<^verbatim>\<open>1 - p\<close> (a scalar broadcast against an array) and \<^verbatim>\<open>p * q\<close> (elementwise).\<close>

definition rsub :: "real \<Rightarrow> fval list \<Rightarrow> fval list" where
  "rsub c p = map (fsub (Fin c)) p"

definition vmul :: "fval list \<Rightarrow> fval list \<Rightarrow> fval list" where
  "vmul p q = map2 fmul p q"

text \<open>\<^verbatim>\<open>.sum()\<close> of a one-dimensional array; the sum of an empty array is \<open>0\<close>.\<close>

definition np_sum :: "fval list \<Rightarrow> fval" where
  "np_sum p = foldl fadd (Fin 0) p"

section \<open>The allele-frequency calculator and the site-pattern counter\<close>

definition derived_allele_freq :: "matrix \<Rightarrow> int list \<Rightarrow> error + fval list" where
  "derived_allele_freq genotype_matrix taxon =
     (case take_columns genotype_matrix taxon of
        Inl e \<Rightarrow> Inl e
      | Inr sub \<Rightarrow> Inr (map (\<lambda>s. div_len s (length taxon)) (sum_axis1 sub)))"

type_synonym counts = "fval \<times> fval \<times> fval \<times> fval \<times> fval \<times> fval"

definition site_patterns :: "matrix \<Rightarrow> int list \<Rightarrow> int list \<Rightarrow> int list \<Rightarrow> error + counts" where
  "site_patterns genotype_matrix p1_idx p2_idx p3_idx =
     (case derived_allele_freq genotype_matrix p1_idx of
        Inl e \<Rightarrow> Inl e
      | Inr p1 \<Rightarrow>
     (case derived_allele_freq genotype_matrix p2_idx of
        Inl e \<Rightarrow> Inl e
      | Inr p2 \<Rightarrow>
     (case derived_allele_freq genotype_matrix p3_idx of
        Inl e \<Rightarrow> Inl e
      | Inr p3 \<Rightarrow>
          (let abba = np_sum (vmul (vmul (rsub 1 p1) p2) p3);
               baba = np_sum (vmul (vmul p1 (rsub 1 p2)) p3);
               bbaa = np_sum (vmul (vmul p1 p2) (rsub 1 p3));
               baaa = np_sum (vmul (vmul p1 (rsub 1 p2)) (rsub 1 p3));
               abaa = np_sum (vmul (vmul (rsub 1 p1) p2) (rsub 1 p3));
               aaba = np_sum (vmul (vmul (rsub 1 p1) (rsub 1 p2)) p3)
           in Inr (abba, baba, bbaa, baaa, abaa, aaba)))))"

section \<open>The block bootstrap driver\<close>

text \<open>
  \<^verbatim>\<open>np.random.randint(high)\<close> reads and advances numpy's global generator. The generator
  is not part of the program, so it is a parameter: a function from the bound and the
  generator state to the drawn integer and the next state.
\<close>

type_synonym 'g sampler = "int \<Rightarrow> 'g \<Rightarrow> int \<times> 'g"

text \<open>\<^verbatim>\<open>np.where((start <= variable_positions) & (variable_positions <= end))[0]\<close>\<close>

definition where_idx :: "int \<Rightarrow> int \<Rightarrow> int list \<Rightarrow> nat list" where
  "where_idx start end variable_positions =
     filter (\<lambda>i. start \<le> variable_positions ! i \<and> variable_positions ! i \<le> end)
       [0..<length variable_positions]"

text \<open>\<^verbatim>\<open>genotype_matrix[variants, :]\<close>: an index past the last row raises.\<close>

definition take_rows :: "matrix \<Rightarrow> nat list \<Rightarrow> error + matrix" where
  "take_rows m variants =
     (if list_all (\<lambda>i. i < length (rows m)) variants
      then Inr \<lparr>ncols = ncols m, rows = map (\<lambda>i. rows m ! i) variants\<rparr>
      else Inl IndexError)"

text \<open>\<^verbatim>\<open>np.concatenate((a, b))\<close> along axis 0: the column counts must agree.\<close>

definition concatenate :: "matrix \<Rightarrow> matrix \<Rightarrow> error + matrix" where
  "concatenate a b =
     (if ncols a = ncols b then Inr \<lparr>ncols = ncols a, rows = rows a @ rows b\<rparr>
      else Inl ValueError)"

text \<open>The inner loop \<^verbatim>\<open>for j in range(1000)\<close>, with the number of iterations left.\<close>

fun window_loop ::
  "'g sampler \<Rightarrow> matrix \<Rightarrow> int list \<Rightarrow> nat \<Rightarrow> matrix \<Rightarrow> 'g \<Rightarrow> error + matrix \<times> 'g" where
  "window_loop rnd genotype_matrix variable_positions 0 bootstrapped_genome g =
     Inr (bootstrapped_genome, g)"
| "window_loop rnd genotype_matrix variable_positions (Suc k) bootstrapped_genome g =
     (case rnd 99900001 g of (start, g') \<Rightarrow>
        (let end = start + 100000;
             variants = where_idx start end variable_positions
         in case take_rows genotype_matrix variants of
              Inl e \<Rightarrow> Inl e
            | Inr windowed_matrix \<Rightarrow>
                (case concatenate bootstrapped_genome windowed_matrix of
                   Inl e \<Rightarrow> Inl e
                 | Inr bootstrapped_genome' \<Rightarrow>
                     window_loop rnd genotype_matrix variable_positions k
                       bootstrapped_genome' g')))"

type_synonym arrays =
  "fval list \<times> fval list \<times> fval list \<times> fval list \<times> fval list \<times> fval list"

text \<open>\<^verbatim>\<open>np.append\<close> of each of the six scalars to its array.\<close>

fun append_counts :: "arrays \<Rightarrow> counts \<Rightarrow> arrays" where
  "append_counts (abba_array, baba_array, bbaa_array, baaa_array, abaa_array, aaba_array)
     (abba, baba, bbaa, baaa, abaa, aaba) =
     (abba_array @ [abba], baba_array @ [baba], bbaa_array @ [bbaa],
      baaa_array @ [baaa], abaa_array @ [abaa], aaba_array @ [aaba])"

text \<open>The outer loop \<^verbatim>\<open>for i in range(n_replicates)\<close>, with the number of iterations left.\<close>

fun replicate_loop ::
  "'g sampler \<Rightarrow> matrix \<Rightarrow> int list \<Rightarrow> nat \<Rightarrow> arrays \<Rightarrow> 'g \<Rightarrow> error + arrays \<times> 'g" where
  "replicate_loop rnd genotype_matrix variable_positions 0 acc g = Inr (acc, g)"
| "replicate_loop rnd genotype_matrix variable_positions (Suc k) acc g =
     (case window_loop rnd genotype_matrix variable_positions 1000
             \<lparr>ncols = 3, rows = []\<rparr> g of
        Inl e \<Rightarrow> Inl e
      | Inr (bootstrapped_genome, g') \<Rightarrow>
          (case site_patterns bootstrapped_genome [0] [1] [2] of
             Inl e \<Rightarrow> Inl e
           | Inr c \<Rightarrow>
               replicate_loop rnd genotype_matrix variable_positions k
                 (append_counts acc c) g'))"

text \<open>
  The driver returns the six arrays; the state of the generator after the call is returned
  with them, since the program leaves it in the global generator. The replicate count is a
  natural number: \<^verbatim>\<open>range\<close> of a negative integer is empty, as it is of 0.
\<close>

definition genotype_matrix_bootstrap ::
  "'g sampler \<Rightarrow> matrix \<Rightarrow> int list \<Rightarrow> nat \<Rightarrow> 'g \<Rightarrow> error + arrays \<times> 'g" where
  "genotype_matrix_bootstrap rnd genotype_matrix variable_positions n_replicates g =
     replicate_loop rnd genotype_matrix variable_positions n_replicates
       ([], [], [], [], [], []) g"

section \<open>The specification's notions\<close>

text \<open>The frequency of a lineage at one site: the sum of its genotype values over its size.\<close>

definition freq_row :: "nat \<Rightarrow> int list \<Rightarrow> real list \<Rightarrow> real" where
  "freq_row n taxon r = sum_list (map (\<lambda>i. r ! col n i) taxon) / real (length taxon)"

text \<open>An individual's raw genotype column.\<close>

definition column :: "matrix \<Rightarrow> nat \<Rightarrow> real list" where
  "column m j = map (\<lambda>r. r ! j) (rows m)"

text \<open>
  The sum over all sites of a product \<open>t f1 f2 f3\<close> of the three frequencies at the site. A
  \<open>NaN\<close> frequency at any site makes the sum \<open>NaN\<close>.
\<close>

definition site_sum ::
  "(real \<Rightarrow> real \<Rightarrow> real \<Rightarrow> real) \<Rightarrow> fval list \<Rightarrow> fval list \<Rightarrow> fval list \<Rightarrow> fval" where
  "site_sum t f1 f2 f3 =
     (if NaN \<in> set f1 \<union> set f2 \<union> set f3 then NaN
      else Fin (sum_list (map (\<lambda>i. t (val (f1 ! i)) (val (f2 ! i)) (val (f3 ! i)))
                  [0..<length f1])))"

text \<open>The rows whose position lies in the closed interval \<open>[start, start + 100000]\<close>.\<close>

definition window_rows :: "matrix \<Rightarrow> int list \<Rightarrow> int \<Rightarrow> real list list" where
  "window_rows m variable_positions start =
     map snd (filter (\<lambda>(p, r). start \<le> p \<and> p \<le> start + 100000)
       (zip variable_positions (rows m)))"

text \<open>The start positions of \<open>k\<close> successive windows, and the generator after drawing them.\<close>

fun draw_starts :: "'g sampler \<Rightarrow> nat \<Rightarrow> 'g \<Rightarrow> int list" where
  "draw_starts rnd 0 g = []"
| "draw_starts rnd (Suc k) g = fst (rnd 99900001 g) # draw_starts rnd k (snd (rnd 99900001 g))"

fun after_draws :: "'g sampler \<Rightarrow> nat \<Rightarrow> 'g \<Rightarrow> 'g" where
  "after_draws rnd 0 g = g"
| "after_draws rnd (Suc k) g = after_draws rnd k (snd (rnd 99900001 g))"

text \<open>The generator at the start of replicate \<open>i\<close>: 1000 draws were made in each earlier one.\<close>

fun replicate_state :: "'g sampler \<Rightarrow> nat \<Rightarrow> 'g \<Rightarrow> 'g" where
  "replicate_state rnd 0 g = g"
| "replicate_state rnd (Suc i) g = replicate_state rnd i (after_draws rnd 1000 g)"

text \<open>The resampled genome of the replicate that starts in generator state \<open>g\<close>.\<close>

definition resampled_genome :: "'g sampler \<Rightarrow> matrix \<Rightarrow> int list \<Rightarrow> 'g \<Rightarrow> matrix" where
  "resampled_genome rnd m variable_positions g =
     \<lparr>ncols = 3,
      rows = concat (map (window_rows m variable_positions) (draw_starts rnd 1000 g))\<rparr>"

text \<open>The six arrays that hold, entry by entry, the counts of a list of replicates.\<close>

definition columns6 :: "counts list \<Rightarrow> arrays" where
  "columns6 cs =
     (map (\<lambda>(abba, baba, bbaa, baaa, abaa, aaba). abba) cs,
      map (\<lambda>(abba, baba, bbaa, baaa, abaa, aaba). baba) cs,
      map (\<lambda>(abba, baba, bbaa, baaa, abaa, aaba). bbaa) cs,
      map (\<lambda>(abba, baba, bbaa, baaa, abaa, aaba). baaa) cs,
      map (\<lambda>(abba, baba, bbaa, baaa, abaa, aaba). abaa) cs,
      map (\<lambda>(abba, baba, bbaa, baaa, abaa, aaba). aaba) cs)"

text \<open>
  What numpy documents of \<^verbatim>\<open>randint(high)\<close>: the drawn integer lies in \<open>[0, high)\<close>. That the
  draw is uniform is a property of the distribution of the generator's states and is not
  expressed here.
\<close>

definition randint_contract :: "'g sampler \<Rightarrow> bool" where
  "randint_contract rnd =
     (\<forall>high g. 0 < high \<longrightarrow> 0 \<le> fst (rnd high g) \<and> fst (rnd high g) < high)"

text \<open>A function of three reals applied to three array entries.\<close>

fun lift3 :: "(real \<Rightarrow> real \<Rightarrow> real \<Rightarrow> real) \<Rightarrow> fval \<Rightarrow> fval \<Rightarrow> fval \<Rightarrow> fval" where
  "lift3 t (Fin a) (Fin b) (Fin c) = Fin (t a b c)"
| "lift3 t _ _ _ = NaN"

section \<open>Inputs named in the claims\<close>

text \<open>The matrix of the specification's end-to-end example.\<close>

definition M9 :: matrix where
  "M9 = \<lparr>ncols = 3, rows = [[0, 1, 1], [1, 0, 1], [1, 1, 0]]\<rparr>"

text \<open>A matrix whose entries are all 0 or 1.\<close>

definition binary :: "matrix \<Rightarrow> bool" where
  "binary m = list_all (list_all (\<lambda>x. x = 0 \<or> x = 1)) (rows m)"

text \<open>
  Positions for the three sites of \<open>M9\<close>, and a deterministic generator whose draws sweep the
  genome in steps of 100000: the second position lies in two of its windows, since both
  ends of a window are included.
\<close>

definition P9 :: "int list" where
  "P9 = [10, 100000, 99999999]"

definition sweep :: "int sampler" where
  "sweep high s = ((s * 100000) mod high, s + 1)"

section \<open>Arithmetic of the exact model\<close>

lemma fadd_NaN [simp]: "fadd NaN x = NaN" "fadd x NaN = NaN"
  by (cases x; simp)+

lemma fmul_NaN [simp]: "fmul NaN x = NaN" "fmul x NaN = NaN"
  by (cases x; simp)+

lemma fsub_NaN [simp]: "fsub NaN x = NaN" "fsub x NaN = NaN"
  by (cases x; simp)+

lemma resolve_indices_valid:
  "list_all (valid_index n) is \<Longrightarrow> resolve_indices n is = Inr (map (col n) is)"
  by (induction "is") simp_all

lemma resolve_indices_invalid:
  "\<not> list_all (valid_index n) is \<Longrightarrow> resolve_indices n is = Inl IndexError"
  by (induction "is") (auto split: sum.splits)

lemma resolve_indices_length:
  "resolve_indices n is = Inr js \<Longrightarrow> length js = length is"
  by (induction "is" arbitrary: js) (auto split: sum.splits if_splits)

lemma derived_allele_freq_valid:
  assumes "list_all (valid_index (ncols m)) taxon"
  shows "derived_allele_freq m taxon =
           Inr (map (\<lambda>r. div_len (sum_list (map (\<lambda>i. r ! col (ncols m) i) taxon)) (length taxon))
                  (rows m))"
  using assms
  by (simp add: derived_allele_freq_def take_columns_def sum_axis1_def
      resolve_indices_valid comp_def)

lemma derived_allele_freq_invalid:
  assumes "\<not> list_all (valid_index (ncols m)) taxon"
  shows "derived_allele_freq m taxon = Inl IndexError"
  using assms
  by (simp add: derived_allele_freq_def take_columns_def resolve_indices_invalid)

lemma derived_allele_freq_Fin:
  assumes "list_all (valid_index (ncols m)) taxon" and "taxon \<noteq> []"
  shows "derived_allele_freq m taxon = Inr (map (\<lambda>r. Fin (freq_row (ncols m) taxon r)) (rows m))"
  using assms by (simp add: derived_allele_freq_valid div_len_def freq_row_def)

lemma derived_allele_freq_length:
  assumes "derived_allele_freq m taxon = Inr f"
  shows "length f = length (rows m)"
  using assms
  by (auto simp: derived_allele_freq_def take_columns_def sum_axis1_def split: sum.splits)

lemma foldl_fadd_NaN: "foldl fadd NaN xs = NaN"
  by (induction xs) simp_all

lemma foldl_fadd:
  "foldl fadd (Fin a) xs =
     (if NaN \<in> set xs then NaN else Fin (a + sum_list (map val xs)))"
proof (induction xs arbitrary: a)
  case Nil
  show ?case by simp
next
  case (Cons x xs)
  show ?case
  proof (cases x)
    case (Fin b)
    then show ?thesis using Cons.IH [of "a + b"] by (simp add: add.assoc)
  next
    case NaN
    then show ?thesis by (simp add: foldl_fadd_NaN)
  qed
qed

lemma np_sum_eq:
  "np_sum xs = (if NaN \<in> set xs then NaN else Fin (sum_list (map val xs)))"
  by (simp add: np_sum_def foldl_fadd)


lemma lift3_eq_NaN: "lift3 t a b c = NaN \<longleftrightarrow> a = NaN \<or> b = NaN \<or> c = NaN"
  by (cases a; cases b; cases c; simp)

lemma val_lift3:
  "a \<noteq> NaN \<Longrightarrow> b \<noteq> NaN \<Longrightarrow> c \<noteq> NaN \<Longrightarrow> val (lift3 t a b c) = t (val a) (val b) (val c)"
  by (cases a; cases b; cases c; simp)

lemma np_sum_lift3:
  assumes "length f2 = length f1" and "length f3 = length f1"
  shows "np_sum (map (\<lambda>i. lift3 t (f1 ! i) (f2 ! i) (f3 ! i)) [0..<length f1]) =
           site_sum t f1 f2 f3"
proof (cases "NaN \<in> set f1 \<union> set f2 \<union> set f3")
  case True
  then obtain i where "i < length f1" "f1 ! i = NaN \<or> f2 ! i = NaN \<or> f3 ! i = NaN"
    using assms by (auto simp: in_set_conv_nth)
  then have "NaN \<in> set (map (\<lambda>i. lift3 t (f1 ! i) (f2 ! i) (f3 ! i)) [0..<length f1])"
    by (force simp: lift3_eq_NaN image_iff)
  with True show ?thesis
    by (simp only: np_sum_eq site_sum_def if_True)
next
  case False
  then have fin: "\<And>i. i < length f1 \<Longrightarrow> f1 ! i \<noteq> NaN \<and> f2 ! i \<noteq> NaN \<and> f3 ! i \<noteq> NaN"
    using assms by (metis UnI1 UnI2 nth_mem)
  then have "NaN \<notin> set (map (\<lambda>i. lift3 t (f1 ! i) (f2 ! i) (f3 ! i)) [0..<length f1])"
    using lift3_eq_NaN [of t] by (auto dest!: sym [of NaN])
  moreover have "map val (map (\<lambda>i. lift3 t (f1 ! i) (f2 ! i) (f3 ! i)) [0..<length f1]) =
      map (\<lambda>i. t (val (f1 ! i)) (val (f2 ! i)) (val (f3 ! i))) [0..<length f1]"
    using fin by (simp add: val_lift3)
  ultimately show ?thesis
    using False by (simp only: np_sum_eq site_sum_def if_False)
qed

lemma vmul3_index:
  assumes "length B = length A" and "length C = length A"
  shows "vmul (vmul A B) C = map (\<lambda>i. fmul (fmul (A ! i) (B ! i)) (C ! i)) [0..<length A]"
  using assms by (intro nth_equalityI) (simp_all add: vmul_def)

lemma rsub_length [simp]: "length (rsub c p) = length p"
  by (simp add: rsub_def)

lemma rsub_nth [simp]: "i < length p \<Longrightarrow> rsub c p ! i = fsub (Fin c) (p ! i)"
  by (simp add: rsub_def)

lemma abba_lift3: "fmul (fmul (fsub (Fin 1) a) b) c = lift3 (\<lambda>a b c. (1 - a) * b * c) a b c"
  by (cases a; cases b; cases c; simp)

lemma baba_lift3: "fmul (fmul a (fsub (Fin 1) b)) c = lift3 (\<lambda>a b c. a * (1 - b) * c) a b c"
  by (cases a; cases b; cases c; simp)

lemma bbaa_lift3: "fmul (fmul a b) (fsub (Fin 1) c) = lift3 (\<lambda>a b c. a * b * (1 - c)) a b c"
  by (cases a; cases b; cases c; simp)

lemma baaa_lift3:
  "fmul (fmul a (fsub (Fin 1) b)) (fsub (Fin 1) c) = lift3 (\<lambda>a b c. a * (1 - b) * (1 - c)) a b c"
  by (cases a; cases b; cases c; simp)

lemma abaa_lift3:
  "fmul (fmul (fsub (Fin 1) a) b) (fsub (Fin 1) c) = lift3 (\<lambda>a b c. (1 - a) * b * (1 - c)) a b c"
  by (cases a; cases b; cases c; simp)

lemma aaba_lift3:
  "fmul (fmul (fsub (Fin 1) a) (fsub (Fin 1) b)) c = lift3 (\<lambda>a b c. (1 - a) * (1 - b) * c) a b c"
  by (cases a; cases b; cases c; simp)

lemma np_sum_pattern:
  assumes "length f2 = length f1" and "length f3 = length f1"
    and "length A = length f1" and "length B = length f1" and "length C = length f1"
    and "\<And>i. i < length f1 \<Longrightarrow>
           fmul (fmul (A ! i) (B ! i)) (C ! i) = lift3 t (f1 ! i) (f2 ! i) (f3 ! i)"
  shows "np_sum (vmul (vmul A B) C) = site_sum t f1 f2 f3"
proof -
  have "vmul (vmul A B) C = map (\<lambda>i. fmul (fmul (A ! i) (B ! i)) (C ! i)) [0..<length f1]"
    using assms(3-5) vmul3_index [of B A C] by simp
  also have "\<dots> = map (\<lambda>i. lift3 t (f1 ! i) (f2 ! i) (f3 ! i)) [0..<length f1]"
    by (rule map_cong) (simp_all add: assms(6))
  finally show ?thesis
    by (simp add: np_sum_lift3 [OF assms(1,2)])
qed

lemma pattern_sums:
  assumes "length f2 = length f1" and "length f3 = length f1"
  shows "np_sum (vmul (vmul (rsub 1 f1) f2) f3) = site_sum (\<lambda>a b c. (1 - a) * b * c) f1 f2 f3"
    and "np_sum (vmul (vmul f1 (rsub 1 f2)) f3) = site_sum (\<lambda>a b c. a * (1 - b) * c) f1 f2 f3"
    and "np_sum (vmul (vmul f1 f2) (rsub 1 f3)) = site_sum (\<lambda>a b c. a * b * (1 - c)) f1 f2 f3"
    and "np_sum (vmul (vmul f1 (rsub 1 f2)) (rsub 1 f3)) =
           site_sum (\<lambda>a b c. a * (1 - b) * (1 - c)) f1 f2 f3"
    and "np_sum (vmul (vmul (rsub 1 f1) f2) (rsub 1 f3)) =
           site_sum (\<lambda>a b c. (1 - a) * b * (1 - c)) f1 f2 f3"
    and "np_sum (vmul (vmul (rsub 1 f1) (rsub 1 f2)) f3) =
           site_sum (\<lambda>a b c. (1 - a) * (1 - b) * c) f1 f2 f3"
proof -
  show "np_sum (vmul (vmul (rsub 1 f1) f2) f3) = site_sum (\<lambda>a b c. (1 - a) * b * c) f1 f2 f3"
    by (rule np_sum_pattern) (simp_all add: assms abba_lift3)
  show "np_sum (vmul (vmul f1 (rsub 1 f2)) f3) = site_sum (\<lambda>a b c. a * (1 - b) * c) f1 f2 f3"
    by (rule np_sum_pattern) (simp_all add: assms baba_lift3)
  show "np_sum (vmul (vmul f1 f2) (rsub 1 f3)) = site_sum (\<lambda>a b c. a * b * (1 - c)) f1 f2 f3"
    by (rule np_sum_pattern) (simp_all add: assms bbaa_lift3)
  show "np_sum (vmul (vmul f1 (rsub 1 f2)) (rsub 1 f3)) =
          site_sum (\<lambda>a b c. a * (1 - b) * (1 - c)) f1 f2 f3"
    by (rule np_sum_pattern) (simp_all add: assms baaa_lift3)
  show "np_sum (vmul (vmul (rsub 1 f1) f2) (rsub 1 f3)) =
          site_sum (\<lambda>a b c. (1 - a) * b * (1 - c)) f1 f2 f3"
    by (rule np_sum_pattern) (simp_all add: assms abaa_lift3)
  show "np_sum (vmul (vmul (rsub 1 f1) (rsub 1 f2)) f3) =
          site_sum (\<lambda>a b c. (1 - a) * (1 - b) * c) f1 f2 f3"
    by (rule np_sum_pattern) (simp_all add: assms aaba_lift3)
qed

lemmas eval_defs =
  derived_allele_freq_def take_columns_def sum_axis1_def div_len_def valid_index_def col_def
  site_patterns_def np_sum_def vmul_def rsub_def well_formed_def

lemma map_nth_fun: "map (\<lambda>i. g (xs ! i)) [0..<length xs] = map g xs"
  by (rule nth_equalityI) simp_all

lemma site_sum_Fin:
  "site_sum t (map (\<lambda>r. Fin (p1 r)) rs) (map (\<lambda>r. Fin (p2 r)) rs) (map (\<lambda>r. Fin (p3 r)) rs) =
     Fin (sum_list (map (\<lambda>r. t (p1 r) (p2 r) (p3 r)) rs))"
proof -
  have "map (\<lambda>i. t (val (map (\<lambda>r. Fin (p1 r)) rs ! i)) (val (map (\<lambda>r. Fin (p2 r)) rs ! i))
               (val (map (\<lambda>r. Fin (p3 r)) rs ! i))) [0..<length rs] =
        map (\<lambda>i. (\<lambda>r. t (p1 r) (p2 r) (p3 r)) (rs ! i)) [0..<length rs]"
    by (rule map_cong) simp_all
  also have "\<dots> = map (\<lambda>r. t (p1 r) (p2 r) (p3 r)) rs"
    by (rule map_nth_fun)
  finally show ?thesis
    by (auto simp: site_sum_def)
qed

lemma site_patterns_real:
  assumes "list_all (valid_index (ncols m)) P1" and "P1 \<noteq> []"
    and "list_all (valid_index (ncols m)) P2" and "P2 \<noteq> []"
    and "list_all (valid_index (ncols m)) P3" and "P3 \<noteq> []"
  shows "site_patterns m P1 P2 P3 =
    Inr (Fin (sum_list (map (\<lambda>r. (1 - freq_row (ncols m) P1 r) * freq_row (ncols m) P2 r * freq_row (ncols m) P3 r) (rows m))),
         Fin (sum_list (map (\<lambda>r. freq_row (ncols m) P1 r * (1 - freq_row (ncols m) P2 r) * freq_row (ncols m) P3 r) (rows m))),
         Fin (sum_list (map (\<lambda>r. freq_row (ncols m) P1 r * freq_row (ncols m) P2 r * (1 - freq_row (ncols m) P3 r)) (rows m))),
         Fin (sum_list (map (\<lambda>r. freq_row (ncols m) P1 r * (1 - freq_row (ncols m) P2 r) * (1 - freq_row (ncols m) P3 r)) (rows m))),
         Fin (sum_list (map (\<lambda>r. (1 - freq_row (ncols m) P1 r) * freq_row (ncols m) P2 r * (1 - freq_row (ncols m) P3 r)) (rows m))),
         Fin (sum_list (map (\<lambda>r. (1 - freq_row (ncols m) P1 r) * (1 - freq_row (ncols m) P2 r) * freq_row (ncols m) P3 r) (rows m))))"
proof -
  note f = derived_allele_freq_Fin [OF assms(1,2)] derived_allele_freq_Fin [OF assms(3,4)]
    derived_allele_freq_Fin [OF assms(5,6)]
  have len:
    "length (map (\<lambda>r. Fin (freq_row (ncols m) P2 r)) (rows m)) =
       length (map (\<lambda>r. Fin (freq_row (ncols m) P1 r)) (rows m))"
    "length (map (\<lambda>r. Fin (freq_row (ncols m) P3 r)) (rows m)) =
       length (map (\<lambda>r. Fin (freq_row (ncols m) P1 r)) (rows m))"
    by simp_all
  note ps = pattern_sums [OF len]
  show ?thesis
    by (simp add: site_patterns_def f Let_def ps site_sum_Fin)
qed

lemma derived_allele_freq_no_rows:
  assumes "rows m = []" and "list_all (valid_index (ncols m)) taxon"
  shows "derived_allele_freq m taxon = Inr []"
  using assms by (simp add: derived_allele_freq_valid)

lemma col_less: "valid_index n i \<Longrightarrow> col n i < n"
  by (auto simp: valid_index_def col_def)

lemma sum_list_le_length:
  fixes g :: "'a \<Rightarrow> real"
  assumes "\<And>x. x \<in> set xs \<Longrightarrow> g x \<le> 1"
  shows "sum_list (map g xs) \<le> real (length xs)"
  using assms by (induction xs) (simp_all add: add_mono)

lemma sum_list_map_nonneg:
  fixes g :: "'a \<Rightarrow> real"
  assumes "\<And>x. x \<in> set xs \<Longrightarrow> 0 \<le> g x"
  shows "0 \<le> sum_list (map g xs)"
  using assms by (induction xs) simp_all

lemma freq_row_unit:
  assumes "binary m" and "well_formed m" and "r \<in> set (rows m)"
    and "list_all (valid_index (ncols m)) P" and "P \<noteq> []"
  shows "0 \<le> freq_row (ncols m) P r \<and> freq_row (ncols m) P r \<le> 1"
proof -
  have len: "length r = ncols m"
    using assms(2,3) by (simp add: well_formed_def list_all_iff)
  have entry: "r ! col (ncols m) i = 0 \<or> r ! col (ncols m) i = 1" if "i \<in> set P" for i
  proof -
    have "col (ncols m) i < length r"
      using that assms(4) len by (simp add: list_all_iff col_less)
    then have "r ! col (ncols m) i \<in> set r" by simp
    then show ?thesis
      using assms(1,3) by (auto simp: binary_def list_all_iff)
  qed
  have lo: "0 \<le> sum_list (map (\<lambda>i. r ! col (ncols m) i) P)"
    by (rule sum_list_map_nonneg) (use entry in force)
  have hi: "sum_list (map (\<lambda>i. r ! col (ncols m) i) P) \<le> real (length P)"
    by (rule sum_list_le_length) (use entry in force)
  have pos: "0 < real (length P)"
    using assms(5) by simp
  show ?thesis
    using lo hi pos by (simp add: freq_row_def)
qed

lemma unit_product:
  fixes x y z :: real
  assumes "0 \<le> x" "x \<le> 1" "0 \<le> y" "y \<le> 1" "0 \<le> z" "z \<le> 1"
  shows "x * y * z \<le> 1"
proof -
  have "x * y \<le> 1" using assms by (simp add: mult_le_one)
  moreover have "0 \<le> x * y" using assms by simp
  ultimately show ?thesis using assms by (simp add: mult_le_one)
qed

lemma eight_patterns:
  fixes a b c :: real
  shows "(1 - a) * b * c + a * (1 - b) * c + a * b * (1 - c) + a * (1 - b) * (1 - c) +
         (1 - a) * b * (1 - c) + (1 - a) * (1 - b) * c + a * b * c +
         (1 - a) * (1 - b) * (1 - c) = 1"
  by (simp add: algebra_simps)

lemma sum_list_const_one: "sum_list (map (\<lambda>r. 1 :: real) rs) = real (length rs)"
  by (induction rs) simp_all

section \<open>The loops of the driver\<close>

lemma zip_index: 
  assumes "length ps = length rs"
  shows "zip ps rs = map (\<lambda>i. (ps ! i, rs ! i)) [0..<length ps]"
  using assms by (intro nth_equalityI) simp_all

lemma window_rows_index:
  assumes "length ps = length (rows m)"
  shows "map (\<lambda>i. rows m ! i) (where_idx s (s + 100000) ps) = window_rows m ps s"
  by (simp add: window_rows_def where_idx_def zip_index [OF assms] filter_map comp_def)

lemma where_idx_bound: "list_all (\<lambda>i. i < length ps) (where_idx s e ps)"
  by (simp add: where_idx_def list_all_iff)

lemma take_rows_window:
  assumes "length ps = length (rows m)"
  shows "take_rows m (where_idx s (s + 100000) ps) =
           Inr \<lparr>ncols = ncols m, rows = window_rows m ps s\<rparr>"
  using where_idx_bound [of ps s "s + 100000"] assms
  by (simp add: take_rows_def window_rows_index)

lemma window_loop_eq:
  assumes "length ps = length (rows m)" and "ncols bg = ncols m"
  shows "window_loop rnd m ps k bg g =
           Inr (\<lparr>ncols = ncols m,
                 rows = rows bg @ concat (map (window_rows m ps) (draw_starts rnd k g))\<rparr>,
                after_draws rnd k g)"
  using assms(2)
proof (induction k arbitrary: bg g)
  case 0
  then show ?case by simp
next
  case (Suc k)
  obtain s g' where d: "rnd 99900001 g = (s, g')"
    by (cases "rnd 99900001 g")
  let ?bg = "\<lparr>ncols = ncols bg, rows = rows bg @ window_rows m ps s\<rparr>"
  have "window_loop rnd m ps (Suc k) bg g = window_loop rnd m ps k ?bg g'"
    using Suc.prems by (simp add: d take_rows_window [OF assms(1)] concatenate_def)
  also have "\<dots> = Inr (\<lparr>ncols = ncols m,
        rows = rows ?bg @ concat (map (window_rows m ps) (draw_starts rnd k g'))\<rparr>,
        after_draws rnd k g')"
    by (rule Suc.IH) (simp add: Suc.prems)
  finally show ?case by (simp add: d)
qed

lemma window_loop_genome:
  assumes "length ps = length (rows m)" and "ncols m = 3"
  shows "window_loop rnd m ps 1000 \<lparr>ncols = 3, rows = []\<rparr> g =
           Inr (resampled_genome rnd m ps g, after_draws rnd 1000 g)"
  using window_loop_eq [OF assms(1), of "\<lparr>ncols = 3, rows = []\<rparr>" rnd 1000 g] assms(2)
  by (simp add: resampled_genome_def)

lemma length_draw_starts [simp]: "length (draw_starts rnd k g) = k"
  by (induction k arbitrary: g) simp_all

lemma draw_starts_range:
  assumes "\<And>g. 0 \<le> fst (rnd 99900001 g) \<and> fst (rnd 99900001 g) < 99900001"
  shows "\<forall>s \<in> set (draw_starts rnd k g). 0 \<le> s \<and> s \<le> 99900000"
proof (induction k arbitrary: g)
  case 0
  show ?case by simp
next
  case (Suc k)
  show ?case using assms [of g] Suc.IH by simp
qed

lemma site_patterns_three_columns:
  assumes "ncols G = 3"
  shows "\<exists>a b c d e f.
           site_patterns G [0] [1] [2] = Inr (Fin a, Fin b, Fin c, Fin d, Fin e, Fin f)"
proof -
  have v: "list_all (valid_index (ncols G)) [0]" "[0] \<noteq> ([] :: int list)"
    "list_all (valid_index (ncols G)) [1]" "[1] \<noteq> ([] :: int list)"
    "list_all (valid_index (ncols G)) [2]" "[2] \<noteq> ([] :: int list)"
    using assms by (simp_all add: valid_index_def)
  show ?thesis
    unfolding site_patterns_real [OF v] by blast
qed

lemma foldl_append_counts:
  "foldl append_counts (a1, a2, a3, a4, a5, a6) cs =
     (case columns6 cs of (b1, b2, b3, b4, b5, b6) \<Rightarrow>
        (a1 @ b1, a2 @ b2, a3 @ b3, a4 @ b4, a5 @ b5, a6 @ b6))"
proof (induction cs arbitrary: a1 a2 a3 a4 a5 a6)
  case Nil
  show ?case by (simp add: columns6_def)
next
  case (Cons c cs)
  obtain x1 x2 x3 x4 x5 x6 where c: "c = (x1, x2, x3, x4, x5, x6)"
    by (cases c) auto
  show ?case
    using Cons.IH [of "a1 @ [x1]" "a2 @ [x2]" "a3 @ [x3]" "a4 @ [x4]" "a5 @ [x5]" "a6 @ [x6]"]
    by (simp add: c columns6_def)
qed

lemma replicate_loop_eq:
  assumes "length ps = length (rows m)" and "ncols m = 3"
  shows "\<exists>cs. length cs = k \<and>
           replicate_loop rnd m ps k acc g =
             Inr (foldl append_counts acc cs, replicate_state rnd k g) \<and>
           (\<forall>i<k. site_patterns (resampled_genome rnd m ps (replicate_state rnd i g)) [0] [1] [2] =
                     Inr (cs ! i))"
proof (induction k arbitrary: acc g)
  case 0
  show ?case by simp
next
  case (Suc k)
  let ?G = "resampled_genome rnd m ps g"
  let ?g = "after_draws rnd 1000 g"
  have "ncols ?G = 3" by (simp add: resampled_genome_def)
  then obtain c where c: "site_patterns ?G [0] [1] [2] = Inr c"
    using site_patterns_three_columns [of ?G] by blast
  from Suc.IH [of "append_counts acc c" ?g] obtain cs where cs: "length cs = k"
    "replicate_loop rnd m ps k (append_counts acc c) ?g =
       Inr (foldl append_counts (append_counts acc c) cs, replicate_state rnd k ?g)"
    "\<forall>i<k. site_patterns (resampled_genome rnd m ps (replicate_state rnd i ?g)) [0] [1] [2] =
             Inr (cs ! i)"
    by blast
  have step: "replicate_loop rnd m ps (Suc k) acc g =
      replicate_loop rnd m ps k (append_counts acc c) ?g"
    by (simp add: window_loop_genome [OF assms] c)
  have "\<forall>i<Suc k. site_patterns (resampled_genome rnd m ps (replicate_state rnd i g)) [0] [1] [2] =
          Inr ((c # cs) ! i)"
  proof (intro allI impI)
    fix i assume "i < Suc k"
    then show "site_patterns (resampled_genome rnd m ps (replicate_state rnd i g)) [0] [1] [2] =
          Inr ((c # cs) ! i)"
      using c cs(3) by (cases i) simp_all
  qed
  moreover have "replicate_loop rnd m ps (Suc k) acc g =
      Inr (foldl append_counts acc (c # cs), replicate_state rnd (Suc k) g)"
    using step cs(2) by simp
  moreover have "length (c # cs) = Suc k"
    using cs(1) by simp
  ultimately show ?case by blast
qed

lemma bootstrap_eq:
  assumes "length ps = length (rows m)" and "ncols m = 3"
  shows "\<exists>cs. length cs = N \<and>
           genotype_matrix_bootstrap rnd m ps N g = Inr (columns6 cs, replicate_state rnd N g) \<and>
           (\<forall>i<N. site_patterns (resampled_genome rnd m ps (replicate_state rnd i g)) [0] [1] [2] =
                     Inr (cs ! i))"
  using replicate_loop_eq [OF assms, of N rnd "([], [], [], [], [], [])" g]
  by (auto simp: genotype_matrix_bootstrap_def foldl_append_counts split: prod.splits)

lemma columns6_nth:
  assumes "i < length cs"
  shows "(case columns6 cs of (a1, a2, a3, a4, a5, a6) \<Rightarrow>
           (a1 ! i, a2 ! i, a3 ! i, a4 ! i, a5 ! i, a6 ! i)) = cs ! i"
  using assms by (cases "cs ! i") (simp add: columns6_def)

lemma columns6_length:
  "(case columns6 cs of (a1, a2, a3, a4, a5, a6) \<Rightarrow>
      length a1 = length cs \<and> length a2 = length cs \<and> length a3 = length cs \<and>
      length a4 = length cs \<and> length a5 = length cs \<and> length a6 = length cs)"
  by (simp add: columns6_def)

lemma sweep_contract: "randint_contract sweep"
  by (simp add: randint_contract_def sweep_def)

lemma bootstrap_example:
  "genotype_matrix_bootstrap sweep M9 P9 1 0 =
     Inr (([Fin 1], [Fin 2], [Fin 1], [Fin 0], [Fin 0], [Fin 0]), 1000)"
  by code_simp

lemma bootstrap_wrong_width:
  assumes "length ps = length (rows m)" and "ncols m \<noteq> 3"
  shows "genotype_matrix_bootstrap rnd m ps (Suc N) g = Inl ValueError"
proof -
  have e: "(1000 :: nat) = Suc 999"
    by simp
  have "window_loop rnd m ps 1000 \<lparr>ncols = 3, rows = []\<rparr> g = Inl ValueError"
    using assms(2)
    by (subst e, subst window_loop.simps)
      (simp add: take_rows_window [OF assms(1)] concatenate_def split: prod.splits)
  then show ?thesis
    by (simp add: genotype_matrix_bootstrap_def)
qed

section \<open>Row order in exact arithmetic\<close>

text \<open>
  In the exact model the order of the rows does not matter to the site-pattern counter: a sum
  of reals depends only on the multiset of its terms. Doubles round after every addition,
  so nothing follows from this for the order of additions in IEEE arithmetic.
\<close>

lemma derived_allele_freq_cases:
  "derived_allele_freq m P =
     (if list_all (valid_index (ncols m)) P
      then Inr (map (\<lambda>r. div_len (sum_list (map (\<lambda>i. r ! col (ncols m) i) P)) (length P)) (rows m))
      else Inl IndexError)"
  by (simp add: derived_allele_freq_valid derived_allele_freq_invalid)

lemma map2_same: "map2 f (map g xs) (map h xs) = map (\<lambda>x. f (g x) (h x)) xs"
  by (induction xs) simp_all

lemma np_sum_mset:
  assumes "mset xs = mset ys"
  shows "np_sum xs = np_sum ys"
proof -
  have "set xs = set ys"
    using assms by (rule mset_eq_setD)
  moreover have "sum_list (map val xs) = sum_list (map val ys)"
  proof -
    have "sum_list (map val xs) = sum_mset (image_mset val (mset xs))"
      by (metis mset_map sum_mset_sum_list)
    also have "\<dots> = sum_mset (image_mset val (mset ys))"
      by (simp add: assms)
    also have "\<dots> = sum_list (map val ys)"
      by (metis mset_map sum_mset_sum_list)
    finally show ?thesis .
  qed
  ultimately show ?thesis
    by (simp add: np_sum_eq)
qed

lemma np_sum_map_mset:
  assumes "mset rs' = mset rs"
  shows "np_sum (map F rs') = np_sum (map F rs)"
  by (rule np_sum_mset) (simp add: assms)

lemma site_patterns_row_order_exact:
  assumes "mset (rows m') = mset (rows m)" and "ncols m' = ncols m"
  shows "site_patterns m' P1 P2 P3 = site_patterns m P1 P2 P3"
  by (simp add: site_patterns_def derived_allele_freq_cases assms(2) Let_def vmul_def rsub_def
      map2_same np_sum_map_mset [OF assms(1)])

section \<open>The claims\<close>

text \<open>
  C1. Whenever the allele-frequency calculator yields the frequency arrays \<open>f1\<close>, \<open>f2\<close>, \<open>f3\<close>
  for the lineages P1, P2, P3, the site-pattern counter returns, in the order ABBA, BABA,
  BBAA, BAAA, ABAA, AABA, the sums over all sites of \<open>(1 - f1) * f2 * f3\<close>,
  \<open>f1 * (1 - f2) * f3\<close>, \<open>f1 * f2 * (1 - f3)\<close>, \<open>f1 * (1 - f2) * (1 - f3)\<close>,
  \<open>(1 - f1) * f2 * (1 - f3)\<close> and \<open>(1 - f1) * (1 - f2) * f3\<close>.
\<close>

theorem site_patterns_formulas:
  assumes "derived_allele_freq m P1 = Inr f1"
    and "derived_allele_freq m P2 = Inr f2"
    and "derived_allele_freq m P3 = Inr f3"
  shows "site_patterns m P1 P2 P3 =
           Inr (site_sum (\<lambda>a b c. (1 - a) * b * c) f1 f2 f3,
                site_sum (\<lambda>a b c. a * (1 - b) * c) f1 f2 f3,
                site_sum (\<lambda>a b c. a * b * (1 - c)) f1 f2 f3,
                site_sum (\<lambda>a b c. a * (1 - b) * (1 - c)) f1 f2 f3,
                site_sum (\<lambda>a b c. (1 - a) * b * (1 - c)) f1 f2 f3,
                site_sum (\<lambda>a b c. (1 - a) * (1 - b) * c) f1 f2 f3)"
proof -
  have len: "length f2 = length f1" "length f3 = length f1"
    using assms by (simp_all add: derived_allele_freq_length)
  show ?thesis
    by (simp add: site_patterns_def assms Let_def pattern_sums [OF len])
qed

theorem site_patterns_formulas_witness:
  "derived_allele_freq \<lparr>ncols = 4, rows = [[0, 1, 1, 2], [2, 0, 1, 1]]\<rparr> [0, 3] = Inr [Fin 1, Fin (3 / 2)] \<and>
   derived_allele_freq \<lparr>ncols = 4, rows = [[0, 1, 1, 2], [2, 0, 1, 1]]\<rparr> [1] = Inr [Fin 1, Fin 0] \<and>
   derived_allele_freq \<lparr>ncols = 4, rows = [[0, 1, 1, 2], [2, 0, 1, 1]]\<rparr> [-2] = Inr [Fin 1, Fin 1] \<and>
   site_patterns \<lparr>ncols = 4, rows = [[0, 1, 1, 2], [2, 0, 1, 1]]\<rparr> [0, 3] [1] [-2] =
     Inr (Fin 0, Fin (3 / 2), Fin 0, Fin 0, Fin 0, Fin (- 1 / 2))"
proof -
  let ?m = "\<lparr>ncols = 4, rows = [[0, 1, 1, 2], [2, 0, 1, 1 :: real]]\<rparr>"
  have f1: "derived_allele_freq ?m [0, 3] = Inr [Fin 1, Fin (3 / 2)]"
    by (simp add: eval_defs)
  have f2: "derived_allele_freq ?m [1] = Inr [Fin 1, Fin 0]"
    by (simp add: eval_defs)
  have f3: "derived_allele_freq ?m [-2] = Inr [Fin 1, Fin 1]"
    by (simp add: eval_defs)
  show ?thesis
    using site_patterns_formulas [OF f1 f2 f3] f1 f2 f3
    by (simp add: site_sum_def)
qed

text \<open>
  C9. For the matrix \<open>[[0,1,1],[1,0,1],[1,1,0]]\<close> with P1 = [0], P2 = [1], P3 = [2] the
  frequencies are \<open>f1 = [0,1,1]\<close>, \<open>f2 = [1,0,1]\<close>, \<open>f3 = [1,1,0]\<close>, and the counter returns
  ABBA = 1, BABA = 1, BBAA = 1, BAAA = 0, ABAA = 0, AABA = 0.
\<close>

theorem example_counts:
  "derived_allele_freq M9 [0] = Inr [Fin 0, Fin 1, Fin 1] \<and>
   derived_allele_freq M9 [1] = Inr [Fin 1, Fin 0, Fin 1] \<and>
   derived_allele_freq M9 [2] = Inr [Fin 1, Fin 1, Fin 0] \<and>
   site_patterns M9 [0] [1] [2] = Inr (Fin 1, Fin 1, Fin 1, Fin 0, Fin 0, Fin 0)"
  by (simp add: M9_def eval_defs)

text \<open>
  C2. For a genotype matrix and a non-empty list of valid column indices, the
  allele-frequency calculator returns one value per site (row): the sum of the lineage's
  genotype values at that site divided by the number of individuals in the lineage.
\<close>

theorem derived_allele_freq_spec:
  assumes "well_formed m" and "taxon \<noteq> []" and "list_all (valid_index (ncols m)) taxon"
  shows "\<exists>f. derived_allele_freq m taxon = Inr f \<and> length f = length (rows m) \<and>
           (\<forall>s < length (rows m).
              f ! s = Fin (sum_list (map (\<lambda>i. rows m ! s ! col (ncols m) i) taxon)
                            / real (length taxon)))"
  using assms(2,3) by (simp add: derived_allele_freq_Fin freq_row_def)

theorem derived_allele_freq_spec_witness:
  "well_formed \<lparr>ncols = 3, rows = [[0, 1, 2], [1, 1, 0]]\<rparr> \<and> [0, 2] \<noteq> ([] :: int list) \<and>
   list_all (valid_index 3) [0, 2] \<and>
   derived_allele_freq \<lparr>ncols = 3, rows = [[0, 1, 2], [1, 1, 0]]\<rparr> [0, 2] = Inr [Fin 1, Fin (1 / 2)]"
proof -
  let ?m = "\<lparr>ncols = 3, rows = [[0, 1, 2], [1, 1, 0 :: real]]\<rparr>"
  have h: "well_formed ?m" "[0, 2] \<noteq> ([] :: int list)" "list_all (valid_index (ncols ?m)) [0, 2]"
    by (simp_all add: well_formed_def valid_index_def)
  from derived_allele_freq_spec [OF h] obtain f where
    f: "derived_allele_freq ?m [0, 2] = Inr f" "length f = 2"
      "\<forall>s<2. f ! s = Fin (sum_list (map (\<lambda>i. rows ?m ! s ! col 3 i) [0, 2]) / 2)"
    by auto
  from f(3) have "f ! 0 = Fin 1" "f ! 1 = Fin (1 / 2)"
    by (simp_all add: col_def)
  with f(2) have "f = [Fin 1, Fin (1 / 2)]"
    by (cases f; simp; cases "tl f"; simp) 
  with f(1) h show ?thesis by simp
qed

text \<open>
  C5. For a lineage of exactly one individual, given by a single valid column index, the
  output of the allele-frequency calculator is that individual's raw genotype column.
\<close>

theorem single_individual_column:
  assumes "well_formed m" and "valid_index (ncols m) i"
  shows "derived_allele_freq m [i] = Inr (map Fin (column m (col (ncols m) i)))"
  using assms(2) by (simp add: derived_allele_freq_Fin freq_row_def column_def comp_def)

theorem single_individual_column_witness:
  "well_formed M9 \<and> valid_index (ncols M9) (-1) \<and>
   derived_allele_freq M9 [-1] = Inr [Fin 1, Fin 1, Fin 0]"
proof -
  have h: "well_formed M9" "valid_index (ncols M9) (-1)"
    by (simp_all add: M9_def well_formed_def valid_index_def)
  show ?thesis
    using single_individual_column [OF h] h by (simp add: M9_def column_def col_def)
qed

text \<open>
  C6. For a genotype matrix with zero rows and lineage lists of valid indices, all six values
  returned by the site-pattern counter are exactly 0.
\<close>

theorem zero_rows_counts:
  assumes "rows m = []"
    and "list_all (valid_index (ncols m)) P1"
    and "list_all (valid_index (ncols m)) P2"
    and "list_all (valid_index (ncols m)) P3"
  shows "site_patterns m P1 P2 P3 = Inr (Fin 0, Fin 0, Fin 0, Fin 0, Fin 0, Fin 0)"
  using assms
  by (simp add: site_patterns_def derived_allele_freq_no_rows np_sum_def vmul_def rsub_def)

theorem zero_rows_counts_witness:
  "rows \<lparr>ncols = 3, rows = []\<rparr> = [] \<and> list_all (valid_index 3) [0] \<and>
   list_all (valid_index 3) [1, -1] \<and> list_all (valid_index 3) [] \<and>
   site_patterns \<lparr>ncols = 3, rows = []\<rparr> [0] [1, -1] [] =
     Inr (Fin 0, Fin 0, Fin 0, Fin 0, Fin 0, Fin 0)"
  using zero_rows_counts [of "\<lparr>ncols = 3, rows = []\<rparr>" "[0]" "[1, -1]" "[]"]
  by (simp add: valid_index_def)

text \<open>
  C8. For a genotype matrix whose entries are all 0 or 1 and non-empty lineage lists of valid
  indices, each of the six sums returned by the site-pattern counter is at most the number
  of rows of the matrix.
\<close>

theorem binary_counts_bounded:
  assumes "well_formed m" and "binary m"
    and "list_all (valid_index (ncols m)) P1" and "P1 \<noteq> []"
    and "list_all (valid_index (ncols m)) P2" and "P2 \<noteq> []"
    and "list_all (valid_index (ncols m)) P3" and "P3 \<noteq> []"
  shows "\<exists>abba baba bbaa baaa abaa aaba.
           site_patterns m P1 P2 P3 = Inr (Fin abba, Fin baba, Fin bbaa, Fin baaa, Fin abaa, Fin aaba) \<and>
           abba \<le> real (length (rows m)) \<and> baba \<le> real (length (rows m)) \<and>
           bbaa \<le> real (length (rows m)) \<and> baaa \<le> real (length (rows m)) \<and>
           abaa \<le> real (length (rows m)) \<and> aaba \<le> real (length (rows m))"
proof -
  have u: "0 \<le> freq_row (ncols m) P1 r \<and> freq_row (ncols m) P1 r \<le> 1 \<and>
           0 \<le> freq_row (ncols m) P2 r \<and> freq_row (ncols m) P2 r \<le> 1 \<and>
           0 \<le> freq_row (ncols m) P3 r \<and> freq_row (ncols m) P3 r \<le> 1"
    if "r \<in> set (rows m)" for r
    using freq_row_unit [OF assms(2,1) that assms(3,4)]
      freq_row_unit [OF assms(2,1) that assms(5,6)]
      freq_row_unit [OF assms(2,1) that assms(7,8)] by simp
  have bound: "sum_list (map (\<lambda>r. x r * y r * z r) (rows m)) \<le> real (length (rows m))"
    if "\<And>r. r \<in> set (rows m) \<Longrightarrow> 0 \<le> x r \<and> x r \<le> 1 \<and> 0 \<le> y r \<and> y r \<le> 1 \<and> 0 \<le> z r \<and> z r \<le> 1"
    for x y z :: "real list \<Rightarrow> real"
    by (rule sum_list_le_length) (use that in \<open>simp add: unit_product\<close>)
  have "sum_list (map (\<lambda>r. (1 - freq_row (ncols m) P1 r) * freq_row (ncols m) P2 r * freq_row (ncols m) P3 r) (rows m)) \<le> real (length (rows m))"
    by (rule bound) (use u in simp)
  moreover have "sum_list (map (\<lambda>r. freq_row (ncols m) P1 r * (1 - freq_row (ncols m) P2 r) * freq_row (ncols m) P3 r) (rows m)) \<le> real (length (rows m))"
    by (rule bound) (use u in simp)
  moreover have "sum_list (map (\<lambda>r. freq_row (ncols m) P1 r * freq_row (ncols m) P2 r * (1 - freq_row (ncols m) P3 r)) (rows m)) \<le> real (length (rows m))"
    by (rule bound) (use u in simp)
  moreover have "sum_list (map (\<lambda>r. freq_row (ncols m) P1 r * (1 - freq_row (ncols m) P2 r) * (1 - freq_row (ncols m) P3 r)) (rows m)) \<le> real (length (rows m))"
    by (rule bound) (use u in simp)
  moreover have "sum_list (map (\<lambda>r. (1 - freq_row (ncols m) P1 r) * freq_row (ncols m) P2 r * (1 - freq_row (ncols m) P3 r)) (rows m)) \<le> real (length (rows m))"
    by (rule bound) (use u in simp)
  moreover have "sum_list (map (\<lambda>r. (1 - freq_row (ncols m) P1 r) * (1 - freq_row (ncols m) P2 r) * freq_row (ncols m) P3 r) (rows m)) \<le> real (length (rows m))"
    by (rule bound) (use u in simp)
  ultimately show ?thesis
    unfolding site_patterns_real [OF assms(3-8)] by blast
qed

theorem binary_counts_bounded_witness:
  "well_formed M9 \<and> binary M9 \<and>
   list_all (valid_index (ncols M9)) [0, 1] \<and> [0, 1] \<noteq> ([] :: int list) \<and>
   list_all (valid_index (ncols M9)) [1, 2] \<and> [1, 2] \<noteq> ([] :: int list) \<and>
   list_all (valid_index (ncols M9)) [-1] \<and> [-1] \<noteq> ([] :: int list) \<and>
   (\<exists>abba baba bbaa baaa abaa aaba.
      site_patterns M9 [0, 1] [1, 2] [-1] =
        Inr (Fin abba, Fin baba, Fin bbaa, Fin baaa, Fin abaa, Fin aaba) \<and>
      abba \<le> 3 \<and> baba \<le> 3 \<and> bbaa \<le> 3 \<and> baaa \<le> 3 \<and> abaa \<le> 3 \<and> aaba \<le> 3)"
proof -
  have h: "well_formed M9" "binary M9"
    "list_all (valid_index (ncols M9)) [0, 1]" "[0, 1] \<noteq> ([] :: int list)"
    "list_all (valid_index (ncols M9)) [1, 2]" "[1, 2] \<noteq> ([] :: int list)"
    "list_all (valid_index (ncols M9)) [-1]" "[-1] \<noteq> ([] :: int list)"
    by (simp_all add: M9_def well_formed_def binary_def valid_index_def)
  have n: "real (length (rows M9)) = 3"
    by (simp add: M9_def)
  show ?thesis
    using binary_counts_bounded [OF h] h unfolding n by simp
qed

text \<open>
  C10. For a genotype matrix with \<open>n\<close> rows and non-empty lineage lists of valid indices,
  with frequencies \<open>f1\<close>, \<open>f2\<close>, \<open>f3\<close>, the six returned counts plus the two sums over all
  sites of \<open>f1 * f2 * f3\<close> and of \<open>(1 - f1) * (1 - f2) * (1 - f3)\<close> add up to exactly \<open>n\<close>,
  for arbitrary real genotype values.
\<close>

theorem partition_identity:
  assumes "well_formed m"
    and "list_all (valid_index (ncols m)) P1" and "P1 \<noteq> []"
    and "list_all (valid_index (ncols m)) P2" and "P2 \<noteq> []"
    and "list_all (valid_index (ncols m)) P3" and "P3 \<noteq> []"
  shows "\<exists>f1 f2 f3 abba baba bbaa baaa abaa aaba.
           derived_allele_freq m P1 = Inr (map Fin f1) \<and>
           derived_allele_freq m P2 = Inr (map Fin f2) \<and>
           derived_allele_freq m P3 = Inr (map Fin f3) \<and>
           site_patterns m P1 P2 P3 = Inr (Fin abba, Fin baba, Fin bbaa, Fin baaa, Fin abaa, Fin aaba) \<and>
           abba + baba + bbaa + baaa + abaa + aaba +
           sum_list (map (\<lambda>i. f1 ! i * f2 ! i * f3 ! i) [0..<length (rows m)]) +
           sum_list (map (\<lambda>i. (1 - f1 ! i) * (1 - f2 ! i) * (1 - f3 ! i)) [0..<length (rows m)]) =
           real (length (rows m))"
proof -
  let ?p1 = "freq_row (ncols m) P1" and ?p2 = "freq_row (ncols m) P2"
    and ?p3 = "freq_row (ncols m) P3"
  have idx: "sum_list (map (\<lambda>i. t (map ?p1 (rows m) ! i) (map ?p2 (rows m) ! i) (map ?p3 (rows m) ! i))
                 [0..<length (rows m)]) = sum_list (map (\<lambda>r. t (?p1 r) (?p2 r) (?p3 r)) (rows m))"
    for t :: "real \<Rightarrow> real \<Rightarrow> real \<Rightarrow> real"
  proof -
    have "map (\<lambda>i. t (map ?p1 (rows m) ! i) (map ?p2 (rows m) ! i) (map ?p3 (rows m) ! i))
            [0..<length (rows m)] =
          map (\<lambda>i. (\<lambda>r. t (?p1 r) (?p2 r) (?p3 r)) (rows m ! i)) [0..<length (rows m)]"
      by (rule map_cong) simp_all
    also have "\<dots> = map (\<lambda>r. t (?p1 r) (?p2 r) (?p3 r)) (rows m)"
      by (rule map_nth_fun)
    finally show ?thesis by simp
  qed
  let ?abba = "sum_list (map (\<lambda>r. (1 - ?p1 r) * ?p2 r * ?p3 r) (rows m))"
  let ?baba = "sum_list (map (\<lambda>r. ?p1 r * (1 - ?p2 r) * ?p3 r) (rows m))"
  let ?bbaa = "sum_list (map (\<lambda>r. ?p1 r * ?p2 r * (1 - ?p3 r)) (rows m))"
  let ?baaa = "sum_list (map (\<lambda>r. ?p1 r * (1 - ?p2 r) * (1 - ?p3 r)) (rows m))"
  let ?abaa = "sum_list (map (\<lambda>r. (1 - ?p1 r) * ?p2 r * (1 - ?p3 r)) (rows m))"
  let ?aaba = "sum_list (map (\<lambda>r. (1 - ?p1 r) * (1 - ?p2 r) * ?p3 r) (rows m))"
  let ?bbba = "sum_list (map (\<lambda>r. ?p1 r * ?p2 r * ?p3 r) (rows m))"
  let ?aaaa = "sum_list (map (\<lambda>r. (1 - ?p1 r) * (1 - ?p2 r) * (1 - ?p3 r)) (rows m))"
  have "sum_list (map (\<lambda>r. (1 - ?p1 r) * ?p2 r * ?p3 r + ?p1 r * (1 - ?p2 r) * ?p3 r +
          ?p1 r * ?p2 r * (1 - ?p3 r) + ?p1 r * (1 - ?p2 r) * (1 - ?p3 r) +
          (1 - ?p1 r) * ?p2 r * (1 - ?p3 r) + (1 - ?p1 r) * (1 - ?p2 r) * ?p3 r +
          ?p1 r * ?p2 r * ?p3 r + (1 - ?p1 r) * (1 - ?p2 r) * (1 - ?p3 r)) (rows m)) =
        real (length (rows m))"
    by (simp only: eight_patterns sum_list_const_one)
  then have total:
    "?abba + ?baba + ?bbaa + ?baaa + ?abaa + ?aaba + ?bbba + ?aaaa = real (length (rows m))"
    by (simp only: sum_list_addf)
  show ?thesis
  proof (intro exI conjI)
    show "derived_allele_freq m P1 = Inr (map Fin (map ?p1 (rows m)))"
      using assms(2,3) by (simp add: derived_allele_freq_Fin comp_def)
    show "derived_allele_freq m P2 = Inr (map Fin (map ?p2 (rows m)))"
      using assms(4,5) by (simp add: derived_allele_freq_Fin comp_def)
    show "derived_allele_freq m P3 = Inr (map Fin (map ?p3 (rows m)))"
      using assms(6,7) by (simp add: derived_allele_freq_Fin comp_def)
    show "site_patterns m P1 P2 P3 =
            Inr (Fin ?abba, Fin ?baba, Fin ?bbaa, Fin ?baaa, Fin ?abaa, Fin ?aaba)"
      by (rule site_patterns_real [OF assms(2-7)])
    show "?abba + ?baba + ?bbaa + ?baaa + ?abaa + ?aaba +
          sum_list (map (\<lambda>i. map ?p1 (rows m) ! i * map ?p2 (rows m) ! i * map ?p3 (rows m) ! i)
            [0..<length (rows m)]) +
          sum_list (map (\<lambda>i. (1 - map ?p1 (rows m) ! i) * (1 - map ?p2 (rows m) ! i) *
            (1 - map ?p3 (rows m) ! i)) [0..<length (rows m)]) =
          real (length (rows m))"
      using total idx [of "\<lambda>a b c. a * b * c"] idx [of "\<lambda>a b c. (1 - a) * (1 - b) * (1 - c)"]
      by simp
  qed
qed

theorem partition_identity_witness:
  "well_formed \<lparr>ncols = 3, rows = [[0, 1, 2], [1, 1, 0]]\<rparr> \<and>
   list_all (valid_index 3) [0, 1] \<and> [0, 1] \<noteq> ([] :: int list) \<and>
   list_all (valid_index 3) [1, 2] \<and> [1, 2] \<noteq> ([] :: int list) \<and>
   list_all (valid_index 3) [-1] \<and> [-1] \<noteq> ([] :: int list) \<and>
   (\<exists>f1 f2 f3 abba baba bbaa baaa abaa aaba.
      derived_allele_freq \<lparr>ncols = 3, rows = [[0, 1, 2], [1, 1, 0]]\<rparr> [0, 1] = Inr (map Fin f1) \<and>
      derived_allele_freq \<lparr>ncols = 3, rows = [[0, 1, 2], [1, 1, 0]]\<rparr> [1, 2] = Inr (map Fin f2) \<and>
      derived_allele_freq \<lparr>ncols = 3, rows = [[0, 1, 2], [1, 1, 0]]\<rparr> [-1] = Inr (map Fin f3) \<and>
      site_patterns \<lparr>ncols = 3, rows = [[0, 1, 2], [1, 1, 0]]\<rparr> [0, 1] [1, 2] [-1] =
        Inr (Fin abba, Fin baba, Fin bbaa, Fin baaa, Fin abaa, Fin aaba) \<and>
      abba + baba + bbaa + baaa + abaa + aaba +
      sum_list (map (\<lambda>i. f1 ! i * f2 ! i * f3 ! i) [0..<2]) +
      sum_list (map (\<lambda>i. (1 - f1 ! i) * (1 - f2 ! i) * (1 - f3 ! i)) [0..<2]) = 2)"
proof -
  let ?m = "\<lparr>ncols = 3, rows = [[0, 1, 2], [1, 1, 0 :: real]]\<rparr>"
  have h: "well_formed ?m"
    "list_all (valid_index (ncols ?m)) [0, 1]" "[0, 1] \<noteq> ([] :: int list)"
    "list_all (valid_index (ncols ?m)) [1, 2]" "[1, 2] \<noteq> ([] :: int list)"
    "list_all (valid_index (ncols ?m)) [-1]" "[-1] \<noteq> ([] :: int list)"
    by (simp_all add: well_formed_def valid_index_def)
  have n: "length (rows ?m) = 2" "real (2 :: nat) = 2"
    by simp_all
  show ?thesis
    using partition_identity [OF h] h unfolding n by simp
qed

text \<open>
  C3. In the block bootstrap driver each of the \<open>N\<close> replicates draws exactly 1000 window
  starts, every one an integer in \<open>[0, 99900000]\<close>; for each start, in the order drawn, the
  rows whose position lies in the closed interval \<open>[start, start + 100000]\<close> are appended in
  their original relative order to the resampled genome; and the replicate's six statistics
  are the site-pattern counter applied to the assembled genome with P1 = [0], P2 = [1],
  P3 = [2]. The matrix has three columns and the position vector one entry per row.
\<close>

theorem bootstrap_replicates:
  assumes "well_formed m" and "ncols m = 3" and "length ps = length (rows m)"
    and "randint_contract rnd"
  shows "\<exists>abba baba bbaa baaa abaa aaba g'.
           genotype_matrix_bootstrap rnd m ps N g =
             Inr ((abba, baba, bbaa, baaa, abaa, aaba), g') \<and>
           (\<forall>i<N. let starts = draw_starts rnd 1000 (replicate_state rnd i g) in
              length starts = 1000 \<and>
              (\<forall>s \<in> set starts. 0 \<le> s \<and> s \<le> 99900000) \<and>
              site_patterns \<lparr>ncols = 3, rows = concat (map (window_rows m ps) starts)\<rparr>
                  [0] [1] [2] =
                Inr (abba ! i, baba ! i, bbaa ! i, baaa ! i, abaa ! i, aaba ! i))"
proof -
  from bootstrap_eq [OF assms(3,2), of N rnd g] obtain cs where cs: "length cs = N"
    "genotype_matrix_bootstrap rnd m ps N g = Inr (columns6 cs, replicate_state rnd N g)"
    "\<forall>i<N. site_patterns (resampled_genome rnd m ps (replicate_state rnd i g)) [0] [1] [2] =
             Inr (cs ! i)"
    by blast
  obtain a1 a2 a3 a4 a5 a6 where a: "columns6 cs = (a1, a2, a3, a4, a5, a6)"
    by (cases "columns6 cs") auto
  have range: "\<forall>s \<in> set (draw_starts rnd 1000 h). 0 \<le> s \<and> s \<le> 99900000" for h
    by (rule draw_starts_range) (use assms(4) in \<open>simp add: randint_contract_def\<close>)
  have "\<forall>i<N. let starts = draw_starts rnd 1000 (replicate_state rnd i g) in
          length starts = 1000 \<and>
          (\<forall>s \<in> set starts. 0 \<le> s \<and> s \<le> 99900000) \<and>
          site_patterns \<lparr>ncols = 3, rows = concat (map (window_rows m ps) starts)\<rparr> [0] [1] [2] =
            Inr (a1 ! i, a2 ! i, a3 ! i, a4 ! i, a5 ! i, a6 ! i)"
  proof (intro allI impI)
    fix i assume i: "i < N"
    have "(a1 ! i, a2 ! i, a3 ! i, a4 ! i, a5 ! i, a6 ! i) = cs ! i"
      using columns6_nth [of i cs] i cs(1) by (simp add: a)
    then show "let starts = draw_starts rnd 1000 (replicate_state rnd i g) in
          length starts = 1000 \<and>
          (\<forall>s \<in> set starts. 0 \<le> s \<and> s \<le> 99900000) \<and>
          site_patterns \<lparr>ncols = 3, rows = concat (map (window_rows m ps) starts)\<rparr> [0] [1] [2] =
            Inr (a1 ! i, a2 ! i, a3 ! i, a4 ! i, a5 ! i, a6 ! i)"
      using cs(3) i range [of "replicate_state rnd i g"]
      by (simp add: Let_def resampled_genome_def)
  qed
  with cs(2) a show ?thesis by metis
qed

theorem bootstrap_replicates_witness:
  "well_formed M9 \<and> ncols M9 = 3 \<and> length P9 = length (rows M9) \<and> randint_contract sweep \<and>
   genotype_matrix_bootstrap sweep M9 P9 1 0 =
     Inr (([Fin 1], [Fin 2], [Fin 1], [Fin 0], [Fin 0], [Fin 0]), 1000) \<and>
   length (draw_starts sweep 1000 0) = 1000 \<and>
   list_all (\<lambda>s. 0 \<le> s \<and> s \<le> 99900000) (draw_starts sweep 1000 0) \<and>
   site_patterns \<lparr>ncols = 3, rows = concat (map (window_rows M9 P9) (draw_starts sweep 1000 0))\<rparr>
       [0] [1] [2] =
     Inr (Fin 1, Fin 2, Fin 1, Fin 0, Fin 0, Fin 0)"
proof -
  have h: "well_formed M9" "ncols M9 = 3" "length P9 = length (rows M9)" "randint_contract sweep"
    by (simp_all add: M9_def P9_def well_formed_def sweep_contract)
  from bootstrap_replicates [OF h, of 1 0] obtain abba baba bbaa baaa abaa aaba g' where
    r: "genotype_matrix_bootstrap sweep M9 P9 1 0 = Inr ((abba, baba, bbaa, baaa, abaa, aaba), g')"
    and p: "\<forall>i<1. let starts = draw_starts sweep 1000 (replicate_state sweep i 0) in
              length starts = 1000 \<and>
              (\<forall>s \<in> set starts. 0 \<le> s \<and> s \<le> 99900000) \<and>
              site_patterns \<lparr>ncols = 3, rows = concat (map (window_rows M9 P9) starts)\<rparr>
                  [0] [1] [2] =
                Inr (abba ! i, baba ! i, bbaa ! i, baaa ! i, abaa ! i, aaba ! i)"
    by blast
  from r [symmetric] bootstrap_example
  have "Inr ((abba, baba, bbaa, baaa, abaa, aaba), g') =
      (Inr (([Fin 1], [Fin 2], [Fin 1], [Fin 0], [Fin 0], [Fin 0]), 1000) ::
        error + arrays \<times> int)"
    by (rule trans)
  then have arrays: "abba = [Fin 1]" "baba = [Fin 2]" "bbaa = [Fin 1]"
    "baaa = [Fin 0]" "abaa = [Fin 0]" "aaba = [Fin 0]"
    by simp_all
  from p have "length (draw_starts sweep 1000 0) = 1000 \<and>
      (\<forall>s \<in> set (draw_starts sweep 1000 0). 0 \<le> s \<and> s \<le> 99900000) \<and>
      site_patterns \<lparr>ncols = 3, rows = concat (map (window_rows M9 P9) (draw_starts sweep 1000 0))\<rparr>
          [0] [1] [2] =
        Inr (abba ! 0, baba ! 0, bbaa ! 0, baaa ! 0, abaa ! 0, aaba ! 0)"
    by (simp add: Let_def)
  then show ?thesis
    using h bootstrap_example by (simp add: arrays list_all_iff)
qed

text \<open>
  C4. For a genotype matrix of three columns, a parallel position vector and a replicate
  count \<open>N\<close>, the driver returns six arrays, each of length exactly \<open>N\<close>, whatever the
  generator draws.
\<close>

theorem bootstrap_lengths:
  assumes "well_formed m" and "ncols m = 3" and "length ps = length (rows m)"
  shows "\<exists>abba baba bbaa baaa abaa aaba g'.
           genotype_matrix_bootstrap rnd m ps N g =
             Inr ((abba, baba, bbaa, baaa, abaa, aaba), g') \<and>
           length abba = N \<and> length baba = N \<and> length bbaa = N \<and>
           length baaa = N \<and> length abaa = N \<and> length aaba = N"
proof -
  from bootstrap_eq [OF assms(3,2), of N rnd g] obtain cs where cs: "length cs = N"
    "genotype_matrix_bootstrap rnd m ps N g = Inr (columns6 cs, replicate_state rnd N g)"
    by blast
  obtain a1 a2 a3 a4 a5 a6 where a: "columns6 cs = (a1, a2, a3, a4, a5, a6)"
    by (cases "columns6 cs") auto
  show ?thesis
    using cs columns6_length [of cs] by (simp add: a)
qed

theorem bootstrap_lengths_witness:
  "well_formed M9 \<and> ncols M9 = 3 \<and> length P9 = length (rows M9) \<and>
   (\<exists>abba baba bbaa baaa abaa aaba g'.
      genotype_matrix_bootstrap sweep M9 P9 3 0 =
        Inr ((abba, baba, bbaa, baaa, abaa, aaba), g') \<and>
      length abba = 3 \<and> length baba = 3 \<and> length bbaa = 3 \<and>
      length baaa = 3 \<and> length abaa = 3 \<and> length aaba = 3)"
proof -
  have h: "well_formed M9" "ncols M9 = 3" "length P9 = length (rows M9)"
    by (simp_all add: M9_def P9_def well_formed_def)
  show ?thesis
    using bootstrap_lengths [OF h, of sweep 3 0] h by simp
qed

end
